theory Spec2Isabelle
  imports Complex_Main
begin

section \<open>JavaScript numbers\<close>

text \<open>
  Heights, scroll offsets and the viewport height are JavaScript numbers. A number is a
  finite value, one of the two infinities, or NaN. Finite values are idealised as reals
  (rounding and overflow of finite sums are not modelled; \<open>+0\<close> and \<open>-0\<close>, which
  JavaScript does not tell apart in \<open>+\<close>, \<open>>\<close>, \<open>!==\<close> and truthiness, are one value).
\<close>

datatype jsnum = Fin real | PosInf | NegInf | NaN

text \<open>The operator \<open>+\<close> on numbers.\<close>

fun js_add :: "jsnum \<Rightarrow> jsnum \<Rightarrow> jsnum" where
  "js_add (Fin a) (Fin b) = Fin (a + b)"
| "js_add NaN y = NaN"
| "js_add x NaN = NaN"
| "js_add PosInf NegInf = NaN"
| "js_add NegInf PosInf = NaN"
| "js_add PosInf y = PosInf"
| "js_add x PosInf = PosInf"
| "js_add NegInf y = NegInf"
| "js_add x NegInf = NegInf"

text \<open>The operator \<open>>\<close> on numbers: every comparison with NaN is false.\<close>

fun js_gt :: "jsnum \<Rightarrow> jsnum \<Rightarrow> bool" where
  "js_gt (Fin a) (Fin b) = (b < a)"
| "js_gt NaN y = False"
| "js_gt x NaN = False"
| "js_gt x PosInf = False"
| "js_gt NegInf y = False"
| "js_gt PosInf y = True"
| "js_gt x NegInf = True"

text \<open>Truthiness of a number, as used by \<open>||\<close>: zero and NaN are falsy.\<close>

definition js_truthy :: "jsnum \<Rightarrow> bool" where
  "js_truthy x = (x \<noteq> NaN \<and> x \<noteq> Fin 0)"

text \<open>
  Strict equality \<open>===\<close> on numbers: NaN equals nothing, itself included. The
  operator \<open>!==\<close> is applied to the result of \<open>Map.get\<close>, a number or
  \<open>undefined\<close> (here \<open>None\<close>), and a number; \<open>undefined\<close> differs from every number.
\<close>

fun js_strict_eq :: "jsnum \<Rightarrow> jsnum \<Rightarrow> bool" where
  "js_strict_eq NaN y = False"
| "js_strict_eq x NaN = False"
| "js_strict_eq x y = (x = y)"

definition js_strict_ne :: "jsnum option \<Rightarrow> jsnum \<Rightarrow> bool" where
  "js_strict_ne cur new =
     (case cur of
        None \<Rightarrow> True
      | Some c \<Rightarrow> \<not> js_strict_eq c new)"

section \<open>The height cache (useMessageHeight)\<close>

text \<open>
  \<open>heightCache\<close> is a \<open>Map<number, number>\<close> from message index to height. The hook
  closes over \<open>defaultHeight\<close>; the cache is passed and returned explicitly.
\<close>

type_synonym heightCache = "nat \<rightharpoonup> jsnum"

definition emptyCache :: heightCache where
  "emptyCache = Map.empty"

definition getItemSize :: "jsnum \<Rightarrow> heightCache \<Rightarrow> nat \<Rightarrow> jsnum" where
  "getItemSize defaultHeight cache index =
     (case cache index of
        None \<Rightarrow> defaultHeight
      | Some h \<Rightarrow> if js_truthy h then h else defaultHeight)"

definition setItemSize :: "heightCache \<Rightarrow> nat \<Rightarrow> jsnum \<Rightarrow> heightCache" where
  "setItemSize cache index size' =
     (let currentHeight = cache index
      in if js_strict_ne currentHeight size' then cache(index \<mapsto> size') else cache)"

definition resetHeights :: "heightCache \<Rightarrow> heightCache" where
  "resetHeights cache = emptyCache"

section \<open>The window computation (VirtualChatList)\<close>

text \<open>
  The closures of the component read \<open>messages.length\<close>, \<open>scrollTop\<close>, \<open>height\<close>,
  \<open>getItemSize\<close> and \<open>BUFFER_SIZE\<close>; each is a parameter here. Every \<open>for\<close> loop
  is a recursive function on its counter and its accumulator; the early \<open>return\<close> is
  the branch that does not recurse.
\<close>

definition BUFFER_SIZE :: int where
  "BUFFER_SIZE = 3"

function totalHeight_loop :: "(nat \<Rightarrow> jsnum) \<Rightarrow> nat \<Rightarrow> nat \<Rightarrow> jsnum \<Rightarrow> jsnum" where
  "totalHeight_loop getSize n i total' =
     (if i < n then totalHeight_loop getSize n (Suc i) (js_add total' (getSize i)) else total')"
  by pat_completeness auto
termination
  by (relation "measure (\<lambda>(getSize, n, i, total'). n - i)") auto

definition totalHeight :: "(nat \<Rightarrow> jsnum) \<Rightarrow> nat \<Rightarrow> jsnum" where
  "totalHeight getSize n = totalHeight_loop getSize n 0 (Fin 0)"

function getStartIndex_loop ::
  "(nat \<Rightarrow> jsnum) \<Rightarrow> nat \<Rightarrow> jsnum \<Rightarrow> int \<Rightarrow> nat \<Rightarrow> jsnum \<Rightarrow> int" where
  "getStartIndex_loop getSize n scrollTop b i sum0 =
     (if i < n then
        (let itemHeight = getSize i
         in if js_gt (js_add sum0 itemHeight) scrollTop then max 0 (int i - b)
            else getStartIndex_loop getSize n scrollTop b (Suc i) (js_add sum0 itemHeight))
      else max 0 (int n - 1 - b))"
  by pat_completeness auto
termination
  by (relation "measure (\<lambda>(getSize, n, scrollTop, b, i, sum0). n - i)") auto

definition getStartIndex :: "(nat \<Rightarrow> jsnum) \<Rightarrow> nat \<Rightarrow> jsnum \<Rightarrow> int \<Rightarrow> int" where
  "getStartIndex getSize n scrollTop b = getStartIndex_loop getSize n scrollTop b 0 (Fin 0)"

function getEndIndex_loop ::
  "(nat \<Rightarrow> jsnum) \<Rightarrow> nat \<Rightarrow> jsnum \<Rightarrow> jsnum \<Rightarrow> int \<Rightarrow> nat \<Rightarrow> jsnum \<Rightarrow> int" where
  "getEndIndex_loop getSize n scrollTop height b i sum0 =
     (if i < n then
        (let itemHeight = getSize i;
             sum1 = js_add sum0 itemHeight
         in if js_gt sum1 (js_add scrollTop height) then min (int n - 1) (int i + b)
            else getEndIndex_loop getSize n scrollTop height b (Suc i) sum1)
      else int n - 1)"
  by pat_completeness auto
termination
  by (relation "measure (\<lambda>(getSize, n, scrollTop, height, b, i, sum0). n - i)") auto

definition getEndIndex :: "(nat \<Rightarrow> jsnum) \<Rightarrow> nat \<Rightarrow> jsnum \<Rightarrow> jsnum \<Rightarrow> int \<Rightarrow> int" where
  "getEndIndex getSize n scrollTop height b =
     getEndIndex_loop getSize n scrollTop height b 0 (Fin 0)"

function getOffsetY_loop :: "(nat \<Rightarrow> jsnum) \<Rightarrow> int \<Rightarrow> nat \<Rightarrow> jsnum \<Rightarrow> jsnum" where
  "getOffsetY_loop getSize startIndex i offset =
     (if int i < startIndex
      then getOffsetY_loop getSize startIndex (Suc i) (js_add offset (getSize i))
      else offset)"
  by pat_completeness auto
termination
  by (relation "measure (\<lambda>(getSize, startIndex, i, offset). nat (startIndex - int i))") auto

definition getOffsetY :: "(nat \<Rightarrow> jsnum) \<Rightarrow> int \<Rightarrow> jsnum" where
  "getOffsetY getSize startIndex = getOffsetY_loop getSize startIndex 0 (Fin 0)"

text \<open>
  \<open>Array.prototype.slice\<close> with two integer arguments: a negative argument counts from
  the end, both are clamped to the array, and an end before the start gives the empty
  array.
\<close>

definition js_slice :: "'a list \<Rightarrow> int \<Rightarrow> int \<Rightarrow> 'a list" where
  "js_slice xs start stop =
     (let len = int (length xs);
          k = (if start < 0 then max (len + start) 0 else min start len);
          final = (if stop < 0 then max (len + stop) 0 else min stop len)
      in take (nat (final - k)) (drop (nat k) xs))"

text \<open>
  What one render of the component computes: the component calls \<open>useMessageHeight(120)\<close>
  and uses \<open>BUFFER_SIZE\<close> on both sides. The indices and the offset are computed by
  every render; the total height is a \<open>useMemo\<close> over \<open>messages.length\<close> and
  \<open>getItemSize\<close>, and \<open>totalHeightPx\<close> is its value in a render that computes it (the
  first one, and every one in which the length has changed).
\<close>

record window =
  startIndex :: int
  endIndex :: int
  offsetY :: jsnum
  totalHeightPx :: jsnum

definition renderWindow :: "heightCache \<Rightarrow> nat \<Rightarrow> jsnum \<Rightarrow> jsnum \<Rightarrow> window" where
  "renderWindow cache n scrollTop height =
     (let getSize = getItemSize (Fin 120) cache;
          s = getStartIndex getSize n scrollTop BUFFER_SIZE;
          e = getEndIndex getSize n scrollTop height BUFFER_SIZE
      in \<lparr> startIndex = s, endIndex = e, offsetY = getOffsetY getSize s,
           totalHeightPx = totalHeight getSize n \<rparr>)"

definition visibleMessages :: "'a list \<Rightarrow> window \<Rightarrow> 'a list" where
  "visibleMessages messages w = js_slice messages (startIndex w) (endIndex w + 1)"

section \<open>Scrolling, timers and frame callbacks (VirtualChatList, MessageItem)\<close>

text \<open>
  The scroll container is a DOM element; its metrics are finite numbers. Assigning to
  \<open>scrollTop\<close> is the element's setter: the browser keeps the value between \<open>0\<close> and
  \<open>scrollHeight - clientHeight\<close>.
\<close>

record element =
  el_scrollTop :: real
  el_scrollHeight :: real
  el_clientHeight :: real

definition assign_scrollTop :: "real \<Rightarrow> element \<Rightarrow> element" where
  "assign_scrollTop v el =
     el\<lparr>el_scrollTop := max 0 (min v (el_scrollHeight el - el_clientHeight el))\<rparr>"

text \<open>
  The two callbacks the component hands to \<open>requestAnimationFrame\<close>: the one built by
  \<open>rafThrottle\<close> around \<open>setScrollTop\<close>, holding the arguments of the call that
  registered it, and the scroll to the bottom (the same body in the effect and in
  \<open>handleHeightChange\<close>).
\<close>

datatype frameCallback = ApplyScrollTop jsnum | ScrollToBottom

text \<open>
  The state of a mounted component: the props it reads (\<open>messages.length\<close>), its React
  state (\<open>scrollTop\<close>, \<open>isUserScrolling\<close>), its refs (\<open>containerRef\<close>, the height
  cache, and the timer behind \<open>userScrollTimeoutRef\<close>: \<open>None\<close> when no timer is
  pending, otherwise the milliseconds left before the pending timer fires), the
  variable \<open>rafId\<close> of the throttle's closure (only whether it is \<open>null\<close> matters:
  \<open>True\<close> is a pending id), and the callbacks waiting for the next frame, in the order of
  their registration.
\<close>

record vstate =
  messagesLength :: nat
  scrollTop :: jsnum
  isUserScrolling :: bool
  userScrollTimeout :: "nat option"
  heightCache :: heightCache
  containerRef :: "element option"
  rafId :: bool
  frameQueue :: "frameCallback list"

definition requestAnimationFrame :: "frameCallback \<Rightarrow> vstate \<Rightarrow> vstate" where
  "requestAnimationFrame cb st = st\<lparr>frameQueue := frameQueue st @ [cb]\<rparr>"

text \<open>
  The effect with dependencies \<open>[messages.length, isUserScrolling]\<close>. React runs it
  after the mount and after every render in which one of the two has changed.
\<close>

definition autoScrollEffect :: "vstate \<Rightarrow> vstate" where
  "autoScrollEffect st =
     (if \<not> isUserScrolling st \<and> containerRef st \<noteq> None \<and> 0 < messagesLength st
      then requestAnimationFrame ScrollToBottom st
      else st)"

definition setIsUserScrolling :: "bool \<Rightarrow> vstate \<Rightarrow> vstate" where
  "setIsUserScrolling v st =
     (if isUserScrolling st = v then st
      else autoScrollEffect (st\<lparr>isUserScrolling := v\<rparr>))"

text \<open>The parent passes a new \<open>messages\<close> array; the component reads its length.\<close>

definition setMessages :: "nat \<Rightarrow> vstate \<Rightarrow> vstate" where
  "setMessages n st =
     (if messagesLength st = n then st
      else autoScrollEffect (st\<lparr>messagesLength := n\<rparr>))"

definition setScrollTop :: "jsnum \<Rightarrow> vstate \<Rightarrow> vstate" where
  "setScrollTop v st = st\<lparr>scrollTop := v\<rparr>"

text \<open>
  The function returned by \<open>rafThrottle\<close>: a call while \<open>rafId\<close> is not \<open>null\<close>
  returns at once; otherwise it registers a frame callback that holds the arguments of
  this call and stores the id. The callback (\<open>runCallback\<close> below) applies the wrapped
  function to those arguments and resets \<open>rafId\<close>.
\<close>

definition rafThrottle :: "(jsnum \<Rightarrow> frameCallback) \<Rightarrow> jsnum \<Rightarrow> vstate \<Rightarrow> vstate" where
  "rafThrottle callback args st =
     (if rafId st then st
      else requestAnimationFrame (callback args) (st\<lparr>rafId := True\<rparr>))"

text \<open>\<open>handleScrollThrottled\<close> is \<open>rafThrottle\<close> applied to \<open>setScrollTop\<close>.\<close>

definition handleScrollThrottled :: "jsnum \<Rightarrow> vstate \<Rightarrow> vstate" where
  "handleScrollThrottled = rafThrottle ApplyScrollTop"

fun runCallback :: "frameCallback \<Rightarrow> vstate \<Rightarrow> vstate" where
  "runCallback (ApplyScrollTop args) st = (setScrollTop args st)\<lparr>rafId := False\<rparr>"
| "runCallback ScrollToBottom st =
     (case containerRef st of
        None \<Rightarrow> st
      | Some c \<Rightarrow> st\<lparr>containerRef := Some (assign_scrollTop (el_scrollHeight c) c)\<rparr>)"

text \<open>A display frame runs the callbacks registered before it, in order.\<close>

definition runFrame :: "vstate \<Rightarrow> vstate" where
  "runFrame st = fold runCallback (frameQueue st) (st\<lparr>frameQueue := []\<rparr>)"

text \<open>
  \<open>handleScroll\<close> is the \<open>onScroll\<close> handler of the container, so the event target
  is the container element (without a mounted container there is no event). It receives
  every scroll event of the element, whoever moved it. \<open>clearTimeout\<close> followed by
  \<open>setTimeout(\<dots>, 500)\<close> replaces whatever timer was pending by one with the full
  500 ms ahead of it.
\<close>

definition handleScroll :: "vstate \<Rightarrow> vstate" where
  "handleScroll st =
     (case containerRef st of
        None \<Rightarrow> st
      | Some target \<Rightarrow>
          (let st1 = handleScrollThrottled (Fin (el_scrollTop target)) st;
               st2 = setIsUserScrolling True st1
           in st2\<lparr>userScrollTimeout := Some 500\<rparr>))"

text \<open>
  The callback of the 500 ms timer armed by \<open>handleScroll\<close>; it reads the target's
  metrics when it runs. \<open>userScrollTimeoutFires\<close> is the pending timer firing.
\<close>

definition userScrollTimeoutFires :: "vstate \<Rightarrow> vstate" where
  "userScrollTimeoutFires st =
     (case userScrollTimeout st of
        None \<Rightarrow> st
      | Some left \<Rightarrow>
          (case containerRef st of
             None \<Rightarrow> st\<lparr>userScrollTimeout := None\<rparr>
           | Some target \<Rightarrow>
               (let isAtBottom =
                      (el_scrollHeight target - el_scrollTop target - el_clientHeight target < 10);
                    st1 = st\<lparr>userScrollTimeout := None\<rparr>
                in if isAtBottom then setIsUserScrolling False st1 else st1)))"

text \<open>
  Time passing with no event: a pending timer fires once its delay has elapsed, and is
  that much closer to firing otherwise.
\<close>

definition elapse :: "nat \<Rightarrow> vstate \<Rightarrow> vstate" where
  "elapse ms st =
     (case userScrollTimeout st of
        None \<Rightarrow> st
      | Some left \<Rightarrow>
          if ms < left then st\<lparr>userScrollTimeout := Some (left - ms)\<rparr>
          else userScrollTimeoutFires st)"

text \<open>
  The placeholder \<open>div\<close> inside the container has the style \<open>height: totalHeight\<close>; when
  a render changes it, the browser lays the container out again and its \<open>scrollHeight\<close>
  follows.
\<close>

definition layoutScrollHeight :: "real \<Rightarrow> vstate \<Rightarrow> vstate" where
  "layoutScrollHeight h st =
     (case containerRef st of
        None \<Rightarrow> st
      | Some c \<Rightarrow> st\<lparr>containerRef := Some (c\<lparr>el_scrollHeight := h\<rparr>)\<rparr>)"

text \<open>
  \<open>handleHeightChange\<close> is a \<open>useCallback\<close> over \<open>messages.length\<close> and
  \<open>isUserScrolling\<close>: the first two arguments are the values of the render that created
  the handler.
\<close>

definition handleHeightChange :: "nat \<Rightarrow> bool \<Rightarrow> nat \<Rightarrow> jsnum \<Rightarrow> vstate \<Rightarrow> vstate" where
  "handleHeightChange messages_length is_user_scrolling index height st =
     (let st1 = st\<lparr>heightCache := setItemSize (heightCache st) index height\<rparr>
      in if int index = int messages_length - 1 \<and> \<not> is_user_scrolling
         then requestAnimationFrame ScrollToBottom st1
         else st1)"

text \<open>The handler as created by the render of the state \<open>st\<close>.\<close>

definition onHeightChange :: "vstate \<Rightarrow> nat \<Rightarrow> jsnum \<Rightarrow> vstate \<Rightarrow> vstate" where
  "onHeightChange st = handleHeightChange (messagesLength st) (isUserScrolling st)"

text \<open>
  The \<open>ResizeObserver\<close> callback of \<open>MessageItem\<close>: one height per entry, reported
  only when it is greater than zero.
\<close>

fun resizeObserverCallback ::
  "(nat \<Rightarrow> jsnum \<Rightarrow> vstate \<Rightarrow> vstate) \<Rightarrow> nat \<Rightarrow> jsnum list \<Rightarrow> vstate \<Rightarrow> vstate" where
  "resizeObserverCallback handler index [] st = st"
| "resizeObserverCallback handler index (height # entries) st =
     resizeObserverCallback handler index entries
       (if js_gt height (Fin 0) then handler index height st else st)"

text \<open>The state after the mount, before the first effect: the \<open>useState\<close> and \<open>useRef\<close> initial values.\<close>

definition initialState :: "nat \<Rightarrow> element \<Rightarrow> vstate" where
  "initialState n el =
     \<lparr> messagesLength = n, scrollTop = Fin 0, isUserScrolling = False,
       userScrollTimeout = None, heightCache = emptyCache, containerRef = Some el,
       rafId = False, frameQueue = [] \<rparr>"

section \<open>Sums of heights\<close>

text \<open>
  The sum of the heights of the items \<open>0, \<dots>, k - 1\<close>, added from the left in index
  order as every loop of the component does.
\<close>

definition heightSum :: "(nat \<Rightarrow> jsnum) \<Rightarrow> nat \<Rightarrow> jsnum" where
  "heightSum getSize k = foldl js_add (Fin 0) (map getSize [0..<k])"

section \<open>The loops, characterised\<close>

text \<open>
  The loop equations are unfolded one step at a time in the proofs below, and all the
  way on concrete inputs.
\<close>

declare totalHeight_loop.simps [simp del] getStartIndex_loop.simps [simp del]
  getEndIndex_loop.simps [simp del] getOffsetY_loop.simps [simp del]

lemmas loop_simps = totalHeight_loop.simps getStartIndex_loop.simps
  getEndIndex_loop.simps getOffsetY_loop.simps

lemmas window_defs = renderWindow_def getStartIndex_def getEndIndex_def getOffsetY_def
  totalHeight_def getItemSize_def BUFFER_SIZE_def emptyCache_def

lemma heightSum_0: "heightSum g 0 = Fin 0"
  by (simp add: heightSum_def)

lemma heightSum_Suc: "heightSum g (Suc k) = js_add (heightSum g k) (g k)"
  by (simp add: heightSum_def)

lemma totalHeight_loop_heightSum:
  "i \<le> n \<Longrightarrow> totalHeight_loop g n i (heightSum g i) = heightSum g n"
proof (induction "n - i" arbitrary: i)
  case 0
  then show ?case by (subst totalHeight_loop.simps) simp
next
  case (Suc d)
  then have lt: "i < n" and d: "d = n - Suc i" by auto
  have "totalHeight_loop g n i (heightSum g i) = totalHeight_loop g n (Suc i) (heightSum g (Suc i))"
    using lt by (subst totalHeight_loop.simps) (simp add: heightSum_Suc)
  also have "\<dots> = heightSum g n"
    using Suc.hyps(1)[of "Suc i"] d lt by simp
  finally show ?case .
qed

lemma totalHeight_heightSum: "totalHeight g n = heightSum g n"
  using totalHeight_loop_heightSum[of 0 n g] by (simp add: totalHeight_def heightSum_0)

lemma getOffsetY_loop_heightSum:
  "int i \<le> s \<Longrightarrow> getOffsetY_loop g s i (heightSum g i) = heightSum g (nat s)"
proof (induction "nat s - i" arbitrary: i)
  case 0
  then have "i = nat s" by simp
  then show ?case by (subst getOffsetY_loop.simps) simp
next
  case (Suc d)
  then have lt: "int i < s" and d: "d = nat s - Suc i" by auto
  have "getOffsetY_loop g s i (heightSum g i) = getOffsetY_loop g s (Suc i) (heightSum g (Suc i))"
    using lt by (subst getOffsetY_loop.simps) (simp add: heightSum_Suc)
  also have "\<dots> = heightSum g (nat s)"
    using Suc.hyps(1)[of "Suc i"] d lt by simp
  finally show ?case .
qed

lemma getOffsetY_heightSum: "getOffsetY g s = heightSum g (nat s)"
proof (cases "0 \<le> s")
  case True
  then show ?thesis
    using getOffsetY_loop_heightSum[of 0 s g] by (simp add: getOffsetY_def heightSum_0)
next
  case False
  then show ?thesis by (simp add: getOffsetY_def heightSum_0 getOffsetY_loop.simps)
qed

lemma getStartIndex_loop_found:
  assumes "i \<le> k" "k < n" "js_gt (heightSum g (Suc k)) s"
    and "\<And>j. i \<le> j \<Longrightarrow> j < k \<Longrightarrow> \<not> js_gt (heightSum g (Suc j)) s"
  shows "getStartIndex_loop g n s b i (heightSum g i) = max 0 (int k - b)"
  using assms
proof (induction "k - i" arbitrary: i)
  case 0
  then have "i = k" by simp
  with 0 show ?case by (subst getStartIndex_loop.simps) (simp add: heightSum_Suc Let_def)
next
  case (Suc d)
  then have lt: "i < k" by simp
  have no: "\<not> js_gt (heightSum g (Suc i)) s" using Suc.prems(4)[of i] lt by simp
  have "getStartIndex_loop g n s b i (heightSum g i)
        = getStartIndex_loop g n s b (Suc i) (heightSum g (Suc i))"
    using lt Suc.prems(2) no by (subst getStartIndex_loop.simps) (simp add: heightSum_Suc Let_def)
  also have "\<dots> = max 0 (int k - b)"
    using Suc.hyps(1)[of "Suc i"] Suc.hyps(2) Suc.prems lt by simp
  finally show ?case .
qed

lemma getStartIndex_loop_none:
  assumes "i \<le> n"
    and "\<And>j. i \<le> j \<Longrightarrow> j < n \<Longrightarrow> \<not> js_gt (heightSum g (Suc j)) s"
  shows "getStartIndex_loop g n s b i (heightSum g i) = max 0 (int n - 1 - b)"
  using assms
proof (induction "n - i" arbitrary: i)
  case 0
  then show ?case by (subst getStartIndex_loop.simps) simp
next
  case (Suc d)
  then have lt: "i < n" by simp
  have no: "\<not> js_gt (heightSum g (Suc i)) s" using Suc.prems(2)[of i] lt by simp
  have "getStartIndex_loop g n s b i (heightSum g i)
        = getStartIndex_loop g n s b (Suc i) (heightSum g (Suc i))"
    using lt no by (subst getStartIndex_loop.simps) (simp add: heightSum_Suc Let_def)
  also have "\<dots> = max 0 (int n - 1 - b)"
    using Suc.hyps(1)[of "Suc i"] Suc.hyps(2) Suc.prems lt by simp
  finally show ?case .
qed

lemma getEndIndex_loop_found:
  assumes "i \<le> k" "k < n" "js_gt (heightSum g (Suc k)) (js_add s v)"
    and "\<And>j. i \<le> j \<Longrightarrow> j < k \<Longrightarrow> \<not> js_gt (heightSum g (Suc j)) (js_add s v)"
  shows "getEndIndex_loop g n s v b i (heightSum g i) = min (int n - 1) (int k + b)"
  using assms
proof (induction "k - i" arbitrary: i)
  case 0
  then have "i = k" by simp
  with 0 show ?case by (subst getEndIndex_loop.simps) (simp add: heightSum_Suc Let_def)
next
  case (Suc d)
  then have lt: "i < k" by simp
  have no: "\<not> js_gt (heightSum g (Suc i)) (js_add s v)" using Suc.prems(4)[of i] lt by simp
  have "getEndIndex_loop g n s v b i (heightSum g i)
        = getEndIndex_loop g n s v b (Suc i) (heightSum g (Suc i))"
    using lt Suc.prems(2) no by (subst getEndIndex_loop.simps) (simp add: heightSum_Suc Let_def)
  also have "\<dots> = min (int n - 1) (int k + b)"
    using Suc.hyps(1)[of "Suc i"] Suc.hyps(2) Suc.prems lt by simp
  finally show ?case .
qed

lemma getEndIndex_loop_none:
  assumes "i \<le> n"
    and "\<And>j. i \<le> j \<Longrightarrow> j < n \<Longrightarrow> \<not> js_gt (heightSum g (Suc j)) (js_add s v)"
  shows "getEndIndex_loop g n s v b i (heightSum g i) = int n - 1"
  using assms
proof (induction "n - i" arbitrary: i)
  case 0
  then show ?case by (subst getEndIndex_loop.simps) simp
next
  case (Suc d)
  then have lt: "i < n" by simp
  have no: "\<not> js_gt (heightSum g (Suc i)) (js_add s v)" using Suc.prems(2)[of i] lt by simp
  have "getEndIndex_loop g n s v b i (heightSum g i)
        = getEndIndex_loop g n s v b (Suc i) (heightSum g (Suc i))"
    using lt no by (subst getEndIndex_loop.simps) (simp add: heightSum_Suc Let_def)
  also have "\<dots> = int n - 1"
    using Suc.hyps(1)[of "Suc i"] Suc.hyps(2) Suc.prems lt by simp
  finally show ?case .
qed

lemma js_gt_add_nonneg:
  "js_gt x (js_add s v) \<Longrightarrow> \<not> js_gt (Fin 0) v \<Longrightarrow> js_gt x s"
  by (cases x; cases s; cases v) auto


lemma heightSum_finite:
  "(\<And>i. i < k \<Longrightarrow> getSize i = Fin (f i)) \<Longrightarrow> heightSum getSize k = Fin (\<Sum>i<k. f i)"
  by (induction k) (simp_all add: heightSum_0 heightSum_Suc)

lemma exists_least_index:
  assumes "k < n" "P (k::nat)"
  shows "\<exists>i<n. P i \<and> (\<forall>j<i. \<not> P j)"
proof -
  define m where "m = (LEAST i. P i)"
  have holds: "P m" unfolding m_def using assms(2) by (rule LeastI)
  have "m \<le> k" unfolding m_def using assms(2) by (rule Least_le)
  then have bound: "m < n" using assms(1) by simp
  have least: "\<not> P j" if "j < m" for j
    using that unfolding m_def by (rule not_less_Least)
  show ?thesis
  proof (intro exI conjI allI impI)
    show "m < n" by (rule bound)
    show "P m" by (rule holds)
    show "\<not> P j" if "j < m" for j using that by (rule least)
  qed
qed

lemma start_le_end:
  assumes "0 < n" "0 \<le> b" "\<not> js_gt (Fin 0) v"
  shows "getStartIndex g n s b \<le> getEndIndex g n s v b"
proof (cases "\<exists>k<n. js_gt (heightSum g (Suc k)) s")
  case True
  then obtain k0 where "k0 < n" "js_gt (heightSum g (Suc k0)) s" by blast
  then obtain k where k: "k < n" "js_gt (heightSum g (Suc k)) s"
      "\<forall>j<k. \<not> js_gt (heightSum g (Suc j)) s"
    using exists_least_index[of k0 n "\<lambda>i. js_gt (heightSum g (Suc i)) s"] by blast
  have st: "getStartIndex g n s b = max 0 (int k - b)"
    using getStartIndex_loop_found[of 0 k n g s b] k by (simp add: getStartIndex_def heightSum_0)
  show ?thesis
  proof (cases "\<exists>m<n. js_gt (heightSum g (Suc m)) (js_add s v)")
    case True
    then obtain m0 where "m0 < n" "js_gt (heightSum g (Suc m0)) (js_add s v)" by blast
    then obtain m where m: "m < n" "js_gt (heightSum g (Suc m)) (js_add s v)"
        "\<forall>j<m. \<not> js_gt (heightSum g (Suc j)) (js_add s v)"
      using exists_least_index[of m0 n "\<lambda>i. js_gt (heightSum g (Suc i)) (js_add s v)"] by blast
    have en: "getEndIndex g n s v b = min (int n - 1) (int m + b)"
      using getEndIndex_loop_found[of 0 m n g s v b] m by (simp add: getEndIndex_def heightSum_0)
    have "js_gt (heightSum g (Suc m)) s" using m(2) assms(3) by (rule js_gt_add_nonneg)
    then have "k \<le> m" using k(3) by (meson not_le)
    then show ?thesis using st en k(1) m(1) assms(2) by simp
  next
    case False
    then have "getEndIndex g n s v b = int n - 1"
      using getEndIndex_loop_none[of 0 n g s v b] by (simp add: getEndIndex_def heightSum_0)
    then show ?thesis using st k(1) assms(2) by simp
  qed
next
  case False
  then have st: "getStartIndex g n s b = max 0 (int n - 1 - b)"
    using getStartIndex_loop_none[of 0 n g s b] by (simp add: getStartIndex_def heightSum_0)
  have "\<not> (\<exists>m<n. js_gt (heightSum g (Suc m)) (js_add s v))"
    using False js_gt_add_nonneg[OF _ assms(3)] by blast
  then have "getEndIndex g n s v b = int n - 1"
    using getEndIndex_loop_none[of 0 n g s v b] by (simp add: getEndIndex_def heightSum_0)
  then show ?thesis using st assms(1,2) by simp
qed


section \<open>The height cache: what the setter stores and what the lookup returns\<close>

lemma setItemSize_same: "setItemSize cache i h i = Some h"
  by (cases "cache i"; cases h; cases "the (cache i)")
     (auto simp: setItemSize_def js_strict_ne_def)

lemma getItemSize_after_set:
  "getItemSize d (setItemSize cache i h) i = (if js_truthy h then h else d)"
  by (simp add: getItemSize_def setItemSize_same)

text \<open>
  C3, as stated, fails. Index 0 holds the measured height 80; \<open>set(0, -5)\<close> is not
  rejected: the lookup then returns \<open>-5\<close>, not the height stored before.
\<close>

theorem setItemSize_accepts_negative_height:
  "getItemSize (Fin 120) (setItemSize emptyCache 0 (Fin 80)) 0 = Fin 80
   \<and> getItemSize (Fin 120) (setItemSize (setItemSize emptyCache 0 (Fin 80)) 0 (Fin (- 5))) 0
       = Fin (- 5)"
  by (simp add: getItemSize_def setItemSize_def js_strict_ne_def js_truthy_def emptyCache_def)

text \<open>
  C3, amended. The setter validates nothing: for every index \<open>i\<close> and height \<open>h\<close>, after
  \<open>set(i, h)\<close> the entry of \<open>i\<close> is \<open>h\<close>, and \<open>get(i)\<close> returns \<open>h\<close> unless \<open>h\<close> is zero
  or NaN, when it returns the default estimate. Invalid measurements are dropped earlier,
  by the \<open>ResizeObserver\<close> callback of \<open>MessageItem\<close>: a measured height that is not
  greater than zero (zero, negative or NaN) is not reported, and nothing changes.
\<close>

theorem setItemSize_stores_and_observer_filters:
  "setItemSize cache i h i = Some h
   \<and> getItemSize d (setItemSize cache i h) i = (if js_truthy h then h else d)
   \<and> (\<not> js_gt h (Fin 0) \<longrightarrow> resizeObserverCallback handler i [h] st = st)"
  by (simp add: setItemSize_same getItemSize_after_set)

text \<open>
  C3, the amended claim at a concrete input: the height \<open>-5\<close> measured for item 0 of a
  freshly mounted list of ten items.
\<close>

theorem setItemSize_stores_and_observer_filters_witness:
  "\<not> js_gt (Fin (- 5)) (Fin 0)
   \<and> resizeObserverCallback
         (onHeightChange (initialState 10
            \<lparr>el_scrollTop = 0, el_scrollHeight = 1200, el_clientHeight = 600\<rparr>))
         0 [Fin (- 5)]
         (initialState 10 \<lparr>el_scrollTop = 0, el_scrollHeight = 1200, el_clientHeight = 600\<rparr>)
       = initialState 10 \<lparr>el_scrollTop = 0, el_scrollHeight = 1200, el_clientHeight = 600\<rparr>"
proof -
  have h: "\<not> js_gt (Fin (- 5)) (Fin 0)" by simp
  show ?thesis
    using h setItemSize_stores_and_observer_filters
      [of emptyCache 0 "Fin (- 5)" "Fin 120"
          "onHeightChange (initialState 10
             \<lparr>el_scrollTop = 0, el_scrollHeight = 1200, el_clientHeight = 600\<rparr>)"
          "initialState 10 \<lparr>el_scrollTop = 0, el_scrollHeight = 1200, el_clientHeight = 600\<rparr>"]
    by blast
qed

text \<open>
  C10, as stated, fails for NaN: NaN is falsy, so a stored NaN is coalesced to the default
  estimate like a stored zero.
\<close>

theorem getItemSize_stored_NaN_gives_default:
  "setItemSize emptyCache 0 NaN 0 = Some NaN
   \<and> getItemSize (Fin 120) (setItemSize emptyCache 0 NaN) 0 = Fin 120
   \<and> getItemSize (Fin 120) (setItemSize emptyCache 0 NaN) 0 \<noteq> NaN"
  by (simp add: getItemSize_def setItemSize_def js_strict_ne_def js_truthy_def emptyCache_def)

text \<open>
  C10, amended. The setter accepts zero and NaN, and the lookup returns the default
  estimate for both; a stored negative height, finite or infinite, is returned as stored.
\<close>

theorem getItemSize_falsy_and_negative:
  "setItemSize cache i (Fin 0) i = Some (Fin 0)
   \<and> getItemSize d (setItemSize cache i (Fin 0)) i = d
   \<and> getItemSize d (setItemSize cache i NaN) i = d
   \<and> (r < 0 \<longrightarrow> getItemSize d (setItemSize cache i (Fin r)) i = Fin r)
   \<and> getItemSize d (setItemSize cache i NegInf) i = NegInf"
  by (simp add: setItemSize_same getItemSize_after_set js_truthy_def)

text \<open>C10, the amended claim at a concrete input: the height \<open>-5\<close> stored for index 0.\<close>

theorem getItemSize_falsy_and_negative_witness:
  "(- 5 :: real) < 0
   \<and> getItemSize (Fin 120) (setItemSize emptyCache 0 (Fin (- 5))) 0 = Fin (- 5)"
proof -
  have h: "(- 5 :: real) < 0" by simp
  show ?thesis
    using h getItemSize_falsy_and_negative [of emptyCache 0 "Fin 120" "- 5"] by blast
qed

section \<open>The window\<close>

text \<open>
  C1, as stated, fails. With ten unmeasured items of 120 px, a viewport of 600 px and the
  scroll offset 0, the running sum first exceeds 600 at index 5 (720), not at index 4
  (exactly 600, and the test is strict), so the end index is \<open>min 9 (5 + 3) = 8\<close>, not 7.
\<close>

theorem scenario_endIndex_is_not_7:
  "\<not> (startIndex (renderWindow emptyCache 10 (Fin 0) (Fin 600)) = 0
      \<and> endIndex (renderWindow emptyCache 10 (Fin 0) (Fin 600)) = 7
      \<and> totalHeightPx (renderWindow emptyCache 10 (Fin 0) (Fin 600)) = Fin 1200)"
  by (simp add: window_defs loop_simps)

text \<open>
  C1, amended. In that scenario the window computation returns the start index 0, the end
  index 8 and the total height 1200 (and the offset 0).
\<close>

theorem scenario_window:
  "renderWindow emptyCache 10 (Fin 0) (Fin 600)
   = \<lparr> startIndex = 0, endIndex = 8, offsetY = Fin 0, totalHeightPx = Fin 1200 \<rparr>"
  by (simp add: window_defs loop_simps)

text \<open>
  C7. For every item count \<open>n > 0\<close>, every buffer \<open>b\<close> and every scroll offset \<open>s\<close> below
  the total height, there is a smallest index \<open>i\<close> at which the running sum of the heights
  of the items \<open>0, \<dots>, i\<close> exceeds \<open>s\<close>, and the start index is \<open>max 0 (i - b)\<close>. (The
  lower bound \<open>0 \<le> s\<close> of the claim is not needed.)
\<close>

theorem startIndex_is_first_exceeding_index:
  assumes "0 < n" and "js_gt (totalHeight getSize n) s"
  shows "\<exists>i<n. js_gt (heightSum getSize (Suc i)) s
           \<and> (\<forall>j<i. \<not> js_gt (heightSum getSize (Suc j)) s)
           \<and> getStartIndex getSize n s b = max 0 (int i - b)"
proof -
  have "n - 1 < n" "js_gt (heightSum getSize (Suc (n - 1))) s"
    using assms by (simp_all add: totalHeight_heightSum)
  then obtain i where i: "i < n" "js_gt (heightSum getSize (Suc i)) s"
      "\<forall>j<i. \<not> js_gt (heightSum getSize (Suc j)) s"
    using exists_least_index[of "n - 1" n "\<lambda>i. js_gt (heightSum getSize (Suc i)) s"] by blast
  have "getStartIndex getSize n s b = max 0 (int i - b)"
    using getStartIndex_loop_found[of 0 i n getSize s b] i
    by (simp add: getStartIndex_def heightSum_0)
  with i show ?thesis by blast
qed

text \<open>
  C7 at a concrete input: ten unmeasured items of 120 px and the scroll offset 500. The
  running sum first exceeds 500 at index 4 (600), so the start index is \<open>max 0 (4 - 3) = 1\<close>.
\<close>

theorem startIndex_is_first_exceeding_index_witness:
  "0 < (10::nat)
   \<and> js_gt (totalHeight (getItemSize (Fin 120) emptyCache) 10) (Fin 500)
   \<and> getStartIndex (getItemSize (Fin 120) emptyCache) 10 (Fin 500) BUFFER_SIZE = 1"
proof -
  let ?g = "getItemSize (Fin 120) emptyCache"
  have n: "0 < (10::nat)" by simp
  have tot: "js_gt (totalHeight ?g 10) (Fin 500)"
    by (simp add: window_defs loop_simps)
  obtain i where i: "i < 10" "js_gt (heightSum ?g (Suc i)) (Fin 500)"
      "\<forall>j<i. \<not> js_gt (heightSum ?g (Suc j)) (Fin 500)"
      "getStartIndex ?g 10 (Fin 500) BUFFER_SIZE = max 0 (int i - BUFFER_SIZE)"
    using startIndex_is_first_exceeding_index [OF n tot, of BUFFER_SIZE] by blast
  have below: "\<not> js_gt (heightSum ?g (Suc j)) (Fin 500)" if "j < 4" for j
  proof -
    from that consider "j = 0" | "j = 1" | "j = 2" | "j = 3" by linarith
    then show ?thesis
      by cases (simp_all add: eval_nat_numeral heightSum_Suc heightSum_0 getItemSize_def
                  emptyCache_def)
  qed
  have above: "js_gt (heightSum ?g (Suc 4)) (Fin 500)"
    by (simp add: eval_nat_numeral heightSum_Suc heightSum_0 getItemSize_def emptyCache_def)
  have "\<not> i < 4" using below i(2) by blast
  moreover have "\<not> 4 < i" using above i(3) by blast
  ultimately have "i = 4" by simp
  with i(4) have "getStartIndex ?g 10 (Fin 500) BUFFER_SIZE = 1"
    by (simp add: BUFFER_SIZE_def)
  with n tot show ?thesis by blast
qed

text \<open>
  C8. For every computed start index, the offset of the window is the sum of
  \<open>getItemSize i\<close> over the indices \<open>0 \<le> i < startIndex\<close>, added from the left in index
  order.
\<close>

theorem offsetY_is_sum_before_startIndex:
  "offsetY (renderWindow cache n s v)
   = foldl js_add (Fin 0)
       (map (getItemSize (Fin 120) cache) [0..<nat (startIndex (renderWindow cache n s v))])"
  by (simp add: renderWindow_def Let_def getOffsetY_heightSum heightSum_def)

text \<open>
  C9, as stated, fails on the empty sequence: the indices are not undefined, they are the
  numbers 0 and \<open>-1\<close>, and the start index is above the end index. It also fails on a
  non-empty sequence when the viewport height is negative: with ten unmeasured items, the
  scroll offset 900 and the height \<open>-1000\<close> the window runs from index 4 to index 3.
\<close>

theorem empty_sequence_indices_are_defined:
  "startIndex (renderWindow emptyCache 0 (Fin 0) (Fin 600)) = 0
   \<and> endIndex (renderWindow emptyCache 0 (Fin 0) (Fin 600)) = - 1
   \<and> \<not> startIndex (renderWindow emptyCache 0 (Fin 0) (Fin 600))
         \<le> endIndex (renderWindow emptyCache 0 (Fin 0) (Fin 600))
   \<and> startIndex (renderWindow emptyCache 10 (Fin 900) (Fin (- 1000))) = 4
   \<and> endIndex (renderWindow emptyCache 10 (Fin 900) (Fin (- 1000))) = 3"
  by (simp add: window_defs loop_simps)

text \<open>
  C9, amended. For a non-empty item sequence and a viewport height that is not negative,
  every computed window has \<open>startIndex \<le> endIndex\<close>. For the empty sequence the start
  index is 0 and the end index is \<open>-1\<close>, the slice of visible messages is empty and the
  total height is 0.
\<close>

theorem window_indices_ordered:
  "(0 < n \<and> \<not> js_gt (Fin 0) v \<longrightarrow>
      startIndex (renderWindow cache n s v) \<le> endIndex (renderWindow cache n s v))
   \<and> startIndex (renderWindow cache 0 s v) = 0
   \<and> endIndex (renderWindow cache 0 s v) = - 1
   \<and> visibleMessages [] (renderWindow cache 0 s v) = []
   \<and> totalHeightPx (renderWindow cache 0 s v) = Fin 0"
proof -
  have "startIndex (renderWindow cache n s v) \<le> endIndex (renderWindow cache n s v)"
    if "0 < n" "\<not> js_gt (Fin 0) v"
    using start_le_end[OF that(1) _ that(2), of BUFFER_SIZE "getItemSize (Fin 120) cache" s]
    by (simp add: renderWindow_def Let_def BUFFER_SIZE_def)
  moreover have "startIndex (renderWindow cache 0 s v) = 0"
    "endIndex (renderWindow cache 0 s v) = - 1"
    "totalHeightPx (renderWindow cache 0 s v) = Fin 0"
    by (simp_all add: renderWindow_def Let_def getStartIndex_def getEndIndex_def totalHeight_def
          loop_simps BUFFER_SIZE_def)
  moreover have "visibleMessages [] (renderWindow cache 0 s v) = []"
    by (simp add: visibleMessages_def js_slice_def)
  ultimately show ?thesis by blast
qed

text \<open>
  C9, the amended claim at a concrete input: ten unmeasured items, the scroll offset 500
  and a viewport of 600 px give the window from index 1 to index 9.
\<close>

theorem window_indices_ordered_witness:
  "0 < (10::nat) \<and> \<not> js_gt (Fin 0) (Fin 600)
   \<and> startIndex (renderWindow emptyCache 10 (Fin 500) (Fin 600))
       \<le> endIndex (renderWindow emptyCache 10 (Fin 500) (Fin 600))"
proof -
  have h: "0 < (10::nat) \<and> \<not> js_gt (Fin 0) (Fin 600)" by simp
  show ?thesis
    using h window_indices_ordered [of 10 "Fin 600" emptyCache "Fin 500"] by blast
qed


section \<open>Scroll samples and the pin state\<close>

text \<open>
  \<open>isUserScrolling = False\<close> is the pinned state: only then do the effect and
  \<open>handleHeightChange\<close> scroll to the bottom.
\<close>

lemma setIsUserScrolling_True: "setIsUserScrolling True st = st\<lparr>isUserScrolling := True\<rparr>"
  by (cases "isUserScrolling st") (simp_all add: setIsUserScrolling_def autoScrollEffect_def)

lemma handleScroll_mounted:
  "containerRef st = Some c \<Longrightarrow>
   handleScroll st =
     (handleScrollThrottled (Fin (el_scrollTop c)) st)
       \<lparr>isUserScrolling := True, userScrollTimeout := Some 500\<rparr>"
  by (simp add: handleScroll_def Let_def setIsUserScrolling_True)

text \<open>
  Whatever moved the container, the handler sets \<open>isUserScrolling\<close> and leaves a timer
  with the full 500 ms pending.
\<close>

lemma handleScroll_marks_any_sample:
  "containerRef st = Some c \<Longrightarrow>
   isUserScrolling (handleScroll st) \<and> userScrollTimeout (handleScroll st) = Some 500"
  by (simp add: handleScroll_mounted)

text \<open>
  A list of ten unmeasured items, mounted in a viewport of 600 px, reaches the pinned
  state at the bottom with nothing pending: the mount effect scrolls to the bottom, the
  scroll event of that move is handled, the frame applies the throttled sample, and 500 ms
  later the timer finds the container at the bottom.
\<close>

lemma pinned_at_bottom_is_reached:
  "runFrame (elapse 500 (runFrame (handleScroll (runFrame (autoScrollEffect
     (initialState 10 \<lparr>el_scrollTop = 0, el_scrollHeight = 1200, el_clientHeight = 600\<rparr>))))))
   = \<lparr>messagesLength = 10, scrollTop = Fin 600, isUserScrolling = False, userScrollTimeout = None, heightCache = emptyCache, containerRef = Some \<lparr>el_scrollTop = 600, el_scrollHeight = 1200, el_clientHeight = 600\<rparr>, rafId = False, frameQueue = []\<rparr>"
  by (simp add: initialState_def autoScrollEffect_def requestAnimationFrame_def runFrame_def
      assign_scrollTop_def handleScroll_def handleScrollThrottled_def rafThrottle_def
      setIsUserScrolling_def setScrollTop_def elapse_def userScrollTimeoutFires_def Let_def)

text \<open>
  C2. The claim is that a scroll sample caused by the component's own scroll to the bottom
  is never taken for user scrolling and never turns the pinned state into the unpinned
  one. The code, whose comments call the flag "the user is scrolling", does both. The
  list of ten items is pinned at the bottom, nothing pending, and the user never scrolls.
  An eleventh item arrives (the content grows to 1320 px): the effect scrolls to the
  bottom, the container moves from 600 to 720, and \<open>handleScroll\<close> sets
  \<open>isUserScrolling\<close> for that move. A twelfth item arrives 200 ms later (1440 px): the
  effect does not scroll, and the report of the new last item's height does not either.
  When the timer fires, the container is 120 px above the bottom, so the flag stays set:
  the feed no longer follows, and a thirteenth item does not scroll.
\<close>

theorem own_scroll_is_taken_for_user_scrolling:
  "(let s0 = \<lparr>messagesLength = 10, scrollTop = Fin 600, isUserScrolling = False, userScrollTimeout = None, heightCache = emptyCache, containerRef = Some \<lparr>el_scrollTop = 600, el_scrollHeight = 1200, el_clientHeight = 600\<rparr>, rafId = False, frameQueue = []\<rparr>;
        s1 = layoutScrollHeight 1320 (setMessages 11 s0);
        s2 = handleScroll (runFrame s1);
        s3 = layoutScrollHeight 1440 (setMessages 12 (elapse 200 s2));
        s4 = onHeightChange s3 11 (Fin 80) s3;
        s5 = elapse 300 (runFrame s4)
    in \<not> isUserScrolling s0
       \<and> frameQueue s1 = [ScrollToBottom]
       \<and> containerRef (runFrame s1)
           = Some \<lparr>el_scrollTop = 720, el_scrollHeight = 1320, el_clientHeight = 600\<rparr>
       \<and> isUserScrolling s2
       \<and> userScrollTimeout s2 = Some 500
       \<and> frameQueue s3 = [ApplyScrollTop (Fin 720)]
       \<and> frameQueue s4 = [ApplyScrollTop (Fin 720)]
       \<and> isUserScrolling s5
       \<and> userScrollTimeout s5 = None
       \<and> containerRef s5
           = Some \<lparr>el_scrollTop = 720, el_scrollHeight = 1440, el_clientHeight = 600\<rparr>
       \<and> frameQueue (setMessages 13 s5) = [])"
  by (simp add: Let_def setMessages_def autoScrollEffect_def requestAnimationFrame_def
      layoutScrollHeight_def runFrame_def assign_scrollTop_def handleScroll_def
      handleScrollThrottled_def rafThrottle_def setIsUserScrolling_def setScrollTop_def
      elapse_def userScrollTimeoutFires_def onHeightChange_def handleHeightChange_def)

section \<open>Auto-scroll when an item is appended\<close>

text \<open>
  C4, as stated, fails. A pinned list of ten items receives an eleventh: the effect
  registers the scroll to the bottom at once, while the cache holds no height for the new
  item (index 10); no height report has been made.
\<close>

theorem scroll_is_scheduled_before_the_height_report:
  "frameQueue (setMessages 11 (initialState 10 \<lparr>el_scrollTop = 0, el_scrollHeight = 1200, el_clientHeight = 600\<rparr>)) = [ScrollToBottom]
   \<and> heightCache (setMessages 11 (initialState 10 \<lparr>el_scrollTop = 0, el_scrollHeight = 1200, el_clientHeight = 600\<rparr>)) 10 = None"
  by (simp add: initialState_def setMessages_def autoScrollEffect_def
      requestAnimationFrame_def emptyCache_def)

text \<open>
  C4, amended. While the feed is pinned and the container is mounted, whenever the item
  count increases the effect registers a scroll to the bottom at once, without waiting for
  the height report of the new item, and leaves the cache as it is; a height report for
  the last item, made while still pinned, registers a further one. The frame callback
  assigns the container's \<open>scrollHeight\<close>, as it is when the callback runs, to
  \<open>scrollTop\<close>.
\<close>

theorem append_while_pinned_schedules_scroll_at_once:
  assumes "\<not> isUserScrolling st" and "containerRef st = Some c" and "messagesLength st < n"
  shows "setMessages n st = requestAnimationFrame ScrollToBottom (st\<lparr>messagesLength := n\<rparr>)
         \<and> frameQueue (setMessages n st) = frameQueue st @ [ScrollToBottom]
         \<and> heightCache (setMessages n st) = heightCache st
         \<and> frameQueue (onHeightChange (setMessages n st) (n - 1) h (setMessages n st))
             = frameQueue st @ [ScrollToBottom, ScrollToBottom]
         \<and> containerRef (runCallback ScrollToBottom st)
             = Some (assign_scrollTop (el_scrollHeight c) c)"
proof -
  have sm: "setMessages n st = requestAnimationFrame ScrollToBottom (st\<lparr>messagesLength := n\<rparr>)"
    using assms by (simp add: setMessages_def autoScrollEffect_def)
  have idx: "int (n - 1) = int n - 1" using assms(3) by simp
  have "frameQueue (onHeightChange (setMessages n st) (n - 1) h (setMessages n st))
        = frameQueue st @ [ScrollToBottom, ScrollToBottom]"
    using assms(1) idx
    by (simp add: sm onHeightChange_def handleHeightChange_def requestAnimationFrame_def Let_def)
  then show ?thesis using sm assms(2) by (simp add: requestAnimationFrame_def)
qed

text \<open>
  C4, the amended claim at a concrete input: an eleventh item appended to a pinned list of
  ten, then its height 80 reported.
\<close>

theorem append_while_pinned_schedules_scroll_at_once_witness:
  "\<not> isUserScrolling (initialState 10 \<lparr>el_scrollTop = 0, el_scrollHeight = 1200, el_clientHeight = 600\<rparr>)
   \<and> containerRef (initialState 10 \<lparr>el_scrollTop = 0, el_scrollHeight = 1200, el_clientHeight = 600\<rparr>) = Some \<lparr>el_scrollTop = 0, el_scrollHeight = 1200, el_clientHeight = 600\<rparr>
   \<and> messagesLength (initialState 10 \<lparr>el_scrollTop = 0, el_scrollHeight = 1200, el_clientHeight = 600\<rparr>) < 11
   \<and> frameQueue (setMessages 11 (initialState 10 \<lparr>el_scrollTop = 0, el_scrollHeight = 1200, el_clientHeight = 600\<rparr>)) = [ScrollToBottom]
   \<and> frameQueue (onHeightChange (setMessages 11 (initialState 10 \<lparr>el_scrollTop = 0, el_scrollHeight = 1200, el_clientHeight = 600\<rparr>)) 10 (Fin 80) (setMessages 11 (initialState 10 \<lparr>el_scrollTop = 0, el_scrollHeight = 1200, el_clientHeight = 600\<rparr>)))
       = [ScrollToBottom, ScrollToBottom]"
proof -
  have p: "\<not> isUserScrolling (initialState 10 \<lparr>el_scrollTop = 0, el_scrollHeight = 1200, el_clientHeight = 600\<rparr>)"
    and c: "containerRef (initialState 10 \<lparr>el_scrollTop = 0, el_scrollHeight = 1200, el_clientHeight = 600\<rparr>) = Some \<lparr>el_scrollTop = 0, el_scrollHeight = 1200, el_clientHeight = 600\<rparr>"
    and n: "messagesLength (initialState 10 \<lparr>el_scrollTop = 0, el_scrollHeight = 1200, el_clientHeight = 600\<rparr>) < 11"
    and q: "frameQueue (initialState 10 \<lparr>el_scrollTop = 0, el_scrollHeight = 1200, el_clientHeight = 600\<rparr>) = []"
    by (simp_all add: initialState_def)
  note t = append_while_pinned_schedules_scroll_at_once [OF p c n, of "Fin 80"]
  from t have a: "frameQueue (setMessages 11 (initialState 10 \<lparr>el_scrollTop = 0, el_scrollHeight = 1200, el_clientHeight = 600\<rparr>)) = frameQueue (initialState 10 \<lparr>el_scrollTop = 0, el_scrollHeight = 1200, el_clientHeight = 600\<rparr>) @ [ScrollToBottom]"
    by blast
  from t have b:
    "frameQueue (onHeightChange (setMessages 11 (initialState 10 \<lparr>el_scrollTop = 0, el_scrollHeight = 1200, el_clientHeight = 600\<rparr>)) (11 - 1) (Fin 80) (setMessages 11 (initialState 10 \<lparr>el_scrollTop = 0, el_scrollHeight = 1200, el_clientHeight = 600\<rparr>)))
     = frameQueue (initialState 10 \<lparr>el_scrollTop = 0, el_scrollHeight = 1200, el_clientHeight = 600\<rparr>) @ [ScrollToBottom, ScrollToBottom]"
    by blast
  have a': "frameQueue (setMessages 11 (initialState 10 \<lparr>el_scrollTop = 0, el_scrollHeight = 1200, el_clientHeight = 600\<rparr>)) = [ScrollToBottom]"
    using a q by simp
  have b': "frameQueue (onHeightChange (setMessages 11 (initialState 10 \<lparr>el_scrollTop = 0, el_scrollHeight = 1200, el_clientHeight = 600\<rparr>)) 10 (Fin 80) (setMessages 11 (initialState 10 \<lparr>el_scrollTop = 0, el_scrollHeight = 1200, el_clientHeight = 600\<rparr>)))
     = [ScrollToBottom, ScrollToBottom]"
    using b q by simp
  show ?thesis
    using p c n a' b' by blast
qed

text \<open>
  C5. Starting unpinned (\<open>isUserScrolling\<close> is set), appending one item and then reporting
  its height, through the handler of the render that shows the new item, registers no
  frame callback and leaves the container and the \<open>scrollTop\<close> state as they were; if no
  callback was waiting before, the next frame does not move the container either.
\<close>

theorem no_directive_while_unpinned:
  assumes "isUserScrolling st"
  shows "(let st1 = setMessages (Suc (messagesLength st)) st;
              st2 = onHeightChange st1 (messagesLength st) h st1
          in frameQueue st2 = frameQueue st \<and> containerRef st2 = containerRef st
             \<and> scrollTop st2 = scrollTop st \<and> isUserScrolling st2
             \<and> (frameQueue st = [] \<longrightarrow> containerRef (runFrame st2) = containerRef st))"
  using assms
  by (simp add: setMessages_def autoScrollEffect_def onHeightChange_def handleHeightChange_def
      Let_def runFrame_def)

text \<open>
  C5 at a concrete input: the user has scrolled a list of ten items, an eleventh item is
  appended and its height 80 is reported.
\<close>

theorem no_directive_while_unpinned_witness:
  "isUserScrolling ((initialState 10 \<lparr>el_scrollTop = 0, el_scrollHeight = 1200, el_clientHeight = 600\<rparr>)\<lparr>isUserScrolling := True\<rparr>)
   \<and> (let st1 = setMessages (Suc (messagesLength ((initialState 10 \<lparr>el_scrollTop = 0, el_scrollHeight = 1200, el_clientHeight = 600\<rparr>)\<lparr>isUserScrolling := True\<rparr>)))
                  ((initialState 10 \<lparr>el_scrollTop = 0, el_scrollHeight = 1200, el_clientHeight = 600\<rparr>)\<lparr>isUserScrolling := True\<rparr>);
           st2 = onHeightChange st1 (messagesLength ((initialState 10 \<lparr>el_scrollTop = 0, el_scrollHeight = 1200, el_clientHeight = 600\<rparr>)\<lparr>isUserScrolling := True\<rparr>)) (Fin 80) st1
       in frameQueue st2 = [] \<and> containerRef (runFrame st2) = Some \<lparr>el_scrollTop = 0, el_scrollHeight = 1200, el_clientHeight = 600\<rparr>)"
proof -
  have u: "isUserScrolling ((initialState 10 \<lparr>el_scrollTop = 0, el_scrollHeight = 1200, el_clientHeight = 600\<rparr>)\<lparr>isUserScrolling := True\<rparr>)"
    and q: "frameQueue ((initialState 10 \<lparr>el_scrollTop = 0, el_scrollHeight = 1200, el_clientHeight = 600\<rparr>)\<lparr>isUserScrolling := True\<rparr>) = []"
    and c: "containerRef ((initialState 10 \<lparr>el_scrollTop = 0, el_scrollHeight = 1200, el_clientHeight = 600\<rparr>)\<lparr>isUserScrolling := True\<rparr>) = Some \<lparr>el_scrollTop = 0, el_scrollHeight = 1200, el_clientHeight = 600\<rparr>"
    by (simp_all add: initialState_def)
  show ?thesis
    using u q c no_directive_while_unpinned [OF u, of "Fin 80"]
    by (simp add: Let_def)
qed

section \<open>The frame throttle\<close>

lemma fold_throttled_pending: "rafId st \<Longrightarrow> fold handleScrollThrottled xs st = st"
  by (induction xs) (simp_all add: handleScrollThrottled_def rafThrottle_def)

lemma fold_ScrollToBottom_keeps:
  "list_all (\<lambda>cb. cb = ScrollToBottom) q \<Longrightarrow>
   scrollTop (fold runCallback q st) = scrollTop st \<and> rafId (fold runCallback q st) = rafId st
   \<and> frameQueue (fold runCallback q st) = frameQueue st"
  by (induction q arbitrary: st) (auto split: option.splits)

text \<open>
  C6, as stated, fails. Two samples, 100 and then 200, arrive in one frame: the value
  applied by the frame is the first one, 100; the most recent one is dropped.
\<close>

theorem frame_applies_stale_sample:
  "scrollTop (runFrame (handleScrollThrottled (Fin 200) (handleScrollThrottled (Fin 100) (initialState 10 \<lparr>el_scrollTop = 0, el_scrollHeight = 1200, el_clientHeight = 600\<rparr>))))
   = Fin 100"
  by (simp add: initialState_def handleScrollThrottled_def rafThrottle_def requestAnimationFrame_def
      runFrame_def setScrollTop_def)

text \<open>
  C6, amended. When several scroll samples arrive within one display frame, started with
  no throttled callback pending, they have the effect of the first sample alone: one frame
  callback is registered, holding the first sample, and every later sample of the frame is
  dropped (first write wins). The frame applies that one update: it sets the \<open>scrollTop\<close>
  state to the first sample and clears \<open>rafId\<close>.
\<close>

theorem frame_applies_first_sample:
  assumes "\<not> rafId st"
  shows "fold handleScrollThrottled (x # xs) st = handleScrollThrottled x st
         \<and> frameQueue (fold handleScrollThrottled (x # xs) st) = frameQueue st @ [ApplyScrollTop x]
         \<and> (list_all (\<lambda>cb. cb = ScrollToBottom) (frameQueue st) \<longrightarrow>
              scrollTop (runFrame (fold handleScrollThrottled (x # xs) st)) = x
              \<and> \<not> rafId (runFrame (fold handleScrollThrottled (x # xs) st))
              \<and> frameQueue (runFrame (fold handleScrollThrottled (x # xs) st)) = [])"
proof -
  have pend: "rafId (handleScrollThrottled x st)"
    using assms by (simp add: handleScrollThrottled_def rafThrottle_def requestAnimationFrame_def)
  have eq: "fold handleScrollThrottled (x # xs) st = handleScrollThrottled x st"
    using fold_throttled_pending[OF pend] by simp
  have q: "frameQueue (handleScrollThrottled x st) = frameQueue st @ [ApplyScrollTop x]"
    using assms by (simp add: handleScrollThrottled_def rafThrottle_def requestAnimationFrame_def)
  have run: "scrollTop (runFrame (handleScrollThrottled x st)) = x
      \<and> \<not> rafId (runFrame (handleScrollThrottled x st))
      \<and> frameQueue (runFrame (handleScrollThrottled x st)) = []"
    if "list_all (\<lambda>cb. cb = ScrollToBottom) (frameQueue st)"
    using fold_ScrollToBottom_keeps[OF that, of "(handleScrollThrottled x st)\<lparr>frameQueue := []\<rparr>"] q
    by (simp add: runFrame_def setScrollTop_def)
  show ?thesis using eq q run by simp
qed

text \<open>C6, the amended claim at a concrete input: the samples 100, 200 and 300 in one frame.\<close>

theorem frame_applies_first_sample_witness:
  "\<not> rafId (initialState 10 \<lparr>el_scrollTop = 0, el_scrollHeight = 1200, el_clientHeight = 600\<rparr>)
   \<and> list_all (\<lambda>cb. cb = ScrollToBottom) (frameQueue (initialState 10 \<lparr>el_scrollTop = 0, el_scrollHeight = 1200, el_clientHeight = 600\<rparr>))
   \<and> scrollTop (runFrame (fold handleScrollThrottled [Fin 100, Fin 200, Fin 300] (initialState 10 \<lparr>el_scrollTop = 0, el_scrollHeight = 1200, el_clientHeight = 600\<rparr>))) = Fin 100"
proof -
  have r: "\<not> rafId (initialState 10 \<lparr>el_scrollTop = 0, el_scrollHeight = 1200, el_clientHeight = 600\<rparr>)"
    and q: "list_all (\<lambda>cb. cb = ScrollToBottom) (frameQueue (initialState 10 \<lparr>el_scrollTop = 0, el_scrollHeight = 1200, el_clientHeight = 600\<rparr>))"
    by (simp_all add: initialState_def)
  show ?thesis
    using r q frame_applies_first_sample [OF r, of "Fin 100" "[Fin 200, Fin 300]"]
    by blast
qed

end
